theory Spec2Isabelle
  imports Complex_Main "HOL-Library.AList"
begin

section \<open>Shared vocabulary: exceptions, log records, the outside world\<close>

text \<open>
  The module \<^verbatim>\<open>ocr/utils.py\<close> is embedded function by function. Python exceptions are
  values of the type \<open>error\<close>; only the exceptions that the embedded statements can raise
  are listed.
\<close>

datatype error =
    ZeroDivisionError
  | IndexError
  | FileNotFoundError
  | UnpicklingError
  | KeyError

text \<open>
  A tensor is its shape (the tuple of dimension sizes) and its elements; the module
  compares shapes and never reads an element. A parameter mapping (a state dict, an
  \<^verbatim>\<open>OrderedDict\<close>) is an association list in insertion order; the keys of a
  dictionary are distinct.
\<close>

record tensor =
  shape :: "nat list"
  elems :: "rat list"

type_synonym state_dict = "(string \<times> tensor) list"

text \<open>
  What a logger has been given. \<open>Info msg\<close> is \<^verbatim>\<open>logger.info(msg)\<close> for a message
  that is a string. \<open>InfoValidation acc wer cer loop_time\<close> is the one line that
  \<open>val_loop\<close> writes: it holds the three numbers that the format string renders with
  \<^verbatim>\<open>:.4f\<close> (the rendering of a number to four decimals is not modelled) and the
  text of the elapsed time.
\<close>

datatype log_record =
    Info string
  | InfoValidation rat rat rat string

text \<open>
  The world outside the functions: the disk (a path names a pickled parameter mapping
  or a file with other content, or nothing), the dictionary objects of the Python heap
  with the next free address, and the records logged so far. A file that exists can be
  removed; failures of the operating system (permissions, races) are not part of the
  model.
\<close>

datatype disk_file = Checkpoint state_dict | Other_content

type_synonym addr = nat

record world =
  disk :: "string \<rightharpoonup> disk_file"
  heap :: "addr \<Rightarrow> state_dict"
  next_addr :: addr
  logged :: "log_record list"

definition logger_info :: "world \<Rightarrow> log_record \<Rightarrow> world" where
  "logger_info w r = w\<lparr>logged := logged w @ [r]\<rparr>"

definition os_path_exists :: "world \<Rightarrow> string \<Rightarrow> bool" where
  "os_path_exists w p = (disk w p \<noteq> None)"

definition os_remove :: "world \<Rightarrow> string \<Rightarrow> error + world" where
  "os_remove w p =
     (case disk w p of
        None \<Rightarrow> Inl FileNotFoundError
      | Some f \<Rightarrow> Inr (w\<lparr>disk := (disk w)(p := None)\<rparr>))"

section \<open>AverageMeter\<close>

text \<open>
  \<^verbatim>\<open>
  class AverageMeter:
      def __init__(self):
          self.reset()
      def reset(self):
          self.avg = 0
          self.sum = 0
          self.count = 0
      def update(self, val, n=1):
          self.sum += val * n
          self.count += n
          self.avg = self.sum / self.count
  \<close>
  Values are exact numbers (\<open>rat\<close>, what Python computes on \<^verbatim>\<open>int\<close> and
  \<^verbatim>\<open>fractions.Fraction\<close> operands apart from the final conversion of an
  \<^verbatim>\<open>int / int\<close> quotient to a float); the rounding of binary floating point is
  not part of the model. The weight \<open>n\<close> is a Python \<^verbatim>\<open>int\<close>. The field
  \<^verbatim>\<open>sum\<close> is called \<open>sum_m\<close> here, \<open>sum\<close> being a constant of HOL.

  Python's \<^verbatim>\<open>/\<close> raises \<^verbatim>\<open>ZeroDivisionError\<close> on a zero divisor. The
  exception leaves \<open>update\<close> after the first two assignments have been carried out, so
  the outcome \<open>Raise\<close> carries the object as the exception leaves it.
\<close>

record AverageMeter =
  avg :: rat
  sum_m :: rat
  count :: int

datatype 's outcome = Return 's | Raise error 's

definition reset :: "AverageMeter" where
  "reset = \<lparr>avg = 0, sum_m = 0, count = 0\<rparr>"

definition update :: "AverageMeter \<Rightarrow> rat \<Rightarrow> int \<Rightarrow> AverageMeter outcome" where
  "update self val n =
     (let s1 = self\<lparr>sum_m := sum_m self + val * of_int n\<rparr>;
          s2 = s1\<lparr>count := count s1 + n\<rparr>
      in if count s2 = 0 then Raise ZeroDivisionError s2
         else Return (s2\<lparr>avg := sum_m s2 / of_int (count s2)\<rparr>))"

text \<open>
  A sequence of \<open>update\<close> calls on one meter; an exception ends the sequence, as it
  does when no caller catches it.
\<close>

fun updates :: "AverageMeter \<Rightarrow> (rat \<times> int) list \<Rightarrow> AverageMeter outcome" where
  "updates self [] = Return self"
| "updates self ((val, n) # rest) =
     (case update self val n of
        Raise e s \<Rightarrow> Raise e s
      | Return s \<Rightarrow> updates s rest)"

text \<open>The weighted sum and the total weight of a sequence of (value, weight) pairs.\<close>

definition weighted_sum :: "(rat \<times> int) list \<Rightarrow> rat" where
  "weighted_sum xs = (\<Sum>(v, n) \<leftarrow> xs. v * of_int n)"

definition total_weight :: "(rat \<times> int) list \<Rightarrow> int" where
  "total_weight xs = (\<Sum>(v, n) \<leftarrow> xs. n)"

section \<open>FilesLimitControl\<close>

text \<open>
  \<^verbatim>\<open>
  class FilesLimitControl:
      """... max_weights_to_save (int, optional): The number of files that will be
             stored on the disk at the same time. Default is 3."""
      def __init__(self, logger=None, max_weights_to_save=2):
          self.saved_weights_paths = []
          self.max_weights_to_save = max_weights_to_save
          ...
      def __call__(self, save_path):
          self.saved_weights_paths.append(save_path)
          if len(self.saved_weights_paths) > self.max_weights_to_save:
              old_weights_path = self.saved_weights_paths.pop(0)
              if os.path.exists(old_weights_path):
                  os.remove(old_weights_path)
                  self.logger.info(f"Weigths removed '{old_weights_path}'")
  \<close>
  The logger of the object writes to \<open>logged\<close> of the world. An argument that the
  caller leaves out is \<open>None\<close>, and the constructor then takes the default of the
  signature. \<^verbatim>\<open>pop(0)\<close> raises \<^verbatim>\<open>IndexError\<close> on an empty list and
  \<^verbatim>\<open>os.remove\<close> raises \<^verbatim>\<open>FileNotFoundError\<close> on a path that does not exist;
  both are branches of the model.
\<close>

record FilesLimitControl =
  saved_weights_paths :: "string list"
  max_weights_to_save :: int

definition FilesLimitControl_init :: "int option \<Rightarrow> FilesLimitControl" where
  "FilesLimitControl_init max_weights_to_save_arg =
     \<lparr>saved_weights_paths = [],
      max_weights_to_save =
        (case max_weights_to_save_arg of None \<Rightarrow> 2 | Some n \<Rightarrow> n)\<rparr>"

definition weights_removed :: "string \<Rightarrow> log_record" where
  "weights_removed old_weights_path =
     Info (''Weigths removed '' @ [CHR 0x27] @ old_weights_path @ [CHR 0x27])"

definition FilesLimitControl_call ::
  "FilesLimitControl \<Rightarrow> world \<Rightarrow> string \<Rightarrow> error + (FilesLimitControl \<times> world)" where
  "FilesLimitControl_call self w save_path =
     (let appended = saved_weights_paths self @ [save_path] in
      if int (length appended) > max_weights_to_save self then
        (case appended of
           [] \<Rightarrow> Inl IndexError
         | old_weights_path # rest \<Rightarrow>
             (let self' = self\<lparr>saved_weights_paths := rest\<rparr> in
              if os_path_exists w old_weights_path then
                (case os_remove w old_weights_path of
                   Inl e \<Rightarrow> Inl e
                 | Inr w' \<Rightarrow> Inr (self', logger_info w' (weights_removed old_weights_path)))
              else Inr (self', w)))
      else Inr (self\<lparr>saved_weights_paths := appended\<rparr>, w))"

text \<open>
  Registering a sequence of paths, one call after the other, nothing else touching the
  disk in between; an exception ends the sequence.
\<close>

fun register_all ::
  "FilesLimitControl \<Rightarrow> world \<Rightarrow> string list \<Rightarrow> error + (FilesLimitControl \<times> world)" where
  "register_all self w [] = Inr (self, w)"
| "register_all self w (save_path # rest) =
     (case FilesLimitControl_call self w save_path of
        Inl e \<Rightarrow> Inl e
      | Inr (self', w') \<Rightarrow> register_all self' w' rest)"

text \<open>
  Vocabulary for the statements about the disk and the log: what the eviction of one
  path does to the world, and what the eviction of a list of distinct paths adds up to.
\<close>

definition evict :: "world \<Rightarrow> string \<Rightarrow> world" where
  "evict w old =
     (if os_path_exists w old
      then w\<lparr>disk := (disk w)(old := None), logged := logged w @ [weights_removed old]\<rparr>
      else w)"

definition evict_all :: "world \<Rightarrow> string list \<Rightarrow> world" where
  "evict_all w olds =
     w\<lparr>disk := disk w |` (- set olds),
       logged := logged w @ map weights_removed (filter (os_path_exists w) olds)\<rparr>"

section \<open>load_pretrain_model\<close>

text \<open>
  \<^verbatim>\<open>
  def load_pretrain_model(weights_path, model, logger=None):
      if logger is None:
          logger = configure_logging()
      old_dict = torch.load(weights_path)
      new_dict = model.state_dict()
      for key, weights in new_dict.items():
          if key in old_dict:
              if new_dict[key].shape == old_dict[key].shape:
                  new_dict[key] = old_dict[key]
              else:
                  logger.info('Weights {} were not loaded'.format(key))
          else:
              logger.info('Weights {} were not loaded'.format(key))
      return new_dict
  \<close>
  Dictionaries are objects of the heap: a name such as \<^verbatim>\<open>new_dict\<close> holds an
  address, and \<^verbatim>\<open>new_dict[key] = v\<close> changes the object at that address for
  everyone who holds it. A new object takes the next free address.

  The two library calls are modelled by what they are documented to do.
  \<^verbatim>\<open>torch.load\<close> raises when the path does not exist or does not hold a pickled
  object, and otherwise builds a new dictionary with the stored content.
  \<^verbatim>\<open>model.state_dict()\<close> builds a new dictionary with the entries of the
  module's parameter table; the module is the address \<open>model\<close> of that table.
  Whichever logger is used, its records go to \<open>logged\<close> of the world.
\<close>

definition alloc :: "world \<Rightarrow> state_dict \<Rightarrow> addr \<times> world" where
  "alloc w d =
     (next_addr w,
      w\<lparr>heap := (heap w)(next_addr w := d), next_addr := Suc (next_addr w)\<rparr>)"

definition torch_load :: "world \<Rightarrow> string \<Rightarrow> error + (addr \<times> world)" where
  "torch_load w weights_path =
     (case disk w weights_path of
        None \<Rightarrow> Inl FileNotFoundError
      | Some Other_content \<Rightarrow> Inl UnpicklingError
      | Some (Checkpoint d) \<Rightarrow> Inr (alloc w d))"

definition state_dict :: "world \<Rightarrow> addr \<Rightarrow> addr \<times> world" where
  "state_dict w model = alloc w (heap w model)"

text \<open>
  The three dictionary operations of the loop: \<^verbatim>\<open>key in d\<close>, \<^verbatim>\<open>d[key]\<close>
  (which raises \<^verbatim>\<open>KeyError\<close> on a missing key) and \<^verbatim>\<open>d[key] = v\<close> on the
  object at an address (an existing key keeps its place, a new key goes to the end).
\<close>

definition dict_contains :: "state_dict \<Rightarrow> string \<Rightarrow> bool" where
  "dict_contains d key = (key \<in> set (map fst d))"

definition dict_getitem :: "state_dict \<Rightarrow> string \<Rightarrow> error + tensor" where
  "dict_getitem d key = (case map_of d key of None \<Rightarrow> Inl KeyError | Some v \<Rightarrow> Inr v)"

definition dict_setitem :: "world \<Rightarrow> addr \<Rightarrow> string \<Rightarrow> tensor \<Rightarrow> world" where
  "dict_setitem w a key v = w\<lparr>heap := (heap w)(a := AList.update key v (heap w a))\<rparr>"

definition not_loaded :: "string \<Rightarrow> log_record" where
  "not_loaded key = Info (''Weights '' @ key @ '' were not loaded'')"

text \<open>
  The body of the \<^verbatim>\<open>for\<close> loop, over the keys that remain to be visited. The
  assignments of the loop replace values of existing keys, so the keys and their order
  are those of \<^verbatim>\<open>new_dict\<close> at the start of the loop. The loop variable
  \<^verbatim>\<open>weights\<close> is not used; the tensor is read again from \<^verbatim>\<open>new_dict\<close>.
\<close>

fun merge_loop :: "addr \<Rightarrow> addr \<Rightarrow> world \<Rightarrow> string list \<Rightarrow> error + world" where
  "merge_loop new_dict old_dict w [] = Inr w"
| "merge_loop new_dict old_dict w (key # keys) =
     (if dict_contains (heap w old_dict) key then
        (case dict_getitem (heap w new_dict) key of
           Inl e \<Rightarrow> Inl e
         | Inr new_weights \<Rightarrow>
             (case dict_getitem (heap w old_dict) key of
                Inl e \<Rightarrow> Inl e
              | Inr old_weights \<Rightarrow>
                  if shape new_weights = shape old_weights
                  then merge_loop new_dict old_dict
                         (dict_setitem w new_dict key old_weights) keys
                  else merge_loop new_dict old_dict (logger_info w (not_loaded key)) keys))
      else merge_loop new_dict old_dict (logger_info w (not_loaded key)) keys)"

definition load_pretrain_model :: "world \<Rightarrow> string \<Rightarrow> addr \<Rightarrow> error + (addr \<times> world)" where
  "load_pretrain_model w weights_path model =
     (case torch_load w weights_path of
        Inl e \<Rightarrow> Inl e
      | Inr (old_dict, w1) \<Rightarrow>
          (case state_dict w1 model of
             (new_dict, w2) \<Rightarrow>
               (case merge_loop new_dict old_dict w2 (map fst (heap w2 new_dict)) of
                  Inl e \<Rightarrow> Inl e
                | Inr w3 \<Rightarrow> Inr (new_dict, w3))))"

text \<open>
  Vocabulary for the statements: the value that the merge gives to a key of the target
  whose tensor is \<open>t\<close>, for the source mapping \<open>src\<close>; whether a key is taken from the
  source.
\<close>

definition loaded :: "state_dict \<Rightarrow> string \<Rightarrow> tensor \<Rightarrow> bool" where
  "loaded src key t =
     (case map_of src key of None \<Rightarrow> False | Some s \<Rightarrow> shape t = shape s)"

definition merged_value :: "state_dict \<Rightarrow> string \<Rightarrow> tensor \<Rightarrow> tensor" where
  "merged_value src key t =
     (case map_of src key of
        None \<Rightarrow> t
      | Some s \<Rightarrow> if shape t = shape s then s else t)"

text \<open>
  The state of the target dictionary in the middle of the loop: the keys in \<open>ks\<close> have
  been visited.
\<close>

definition merge_entries :: "state_dict \<Rightarrow> string set \<Rightarrow> state_dict \<Rightarrow> state_dict" where
  "merge_entries src ks D =
     map (\<lambda>(k, t). (k, if k \<in> ks then merged_value src k t else t)) D"

section \<open>The validation loop: val_loop and sec2min\<close>

text \<open>
  \<^verbatim>\<open>
  def sec2min(s):
      m = math.floor(s / 60)
      s -= m * 60
      return '%dm %ds' % (m, s)
  \<close>
  \<^verbatim>\<open>%d\<close> writes an integer in decimal, with a minus sign when it is negative, and cuts
  the fraction of a number that is not an integer (towards zero).
\<close>

function str_nat :: "nat \<Rightarrow> string" where
  "str_nat n =
     (if n < 10 then [''0123456789'' ! n]
      else str_nat (n div 10) @ [''0123456789'' ! (n mod 10)])"
  by pat_completeness auto
termination
  by (relation "measure id") auto

definition str_int :: "int \<Rightarrow> string" where
  "str_int i = (if i < 0 then ''-'' @ str_nat (nat (- i)) else str_nat (nat i))"

definition trunc :: "rat \<Rightarrow> int" where
  "trunc x = (if 0 \<le> x then \<lfloor>x\<rfloor> else \<lceil>x\<rceil>)"

definition sec2min :: "rat \<Rightarrow> string" where
  "sec2min s =
     (let m = \<lfloor>s / 60\<rfloor>;
          s' = s - of_int m * 60
      in str_int m @ ''m '' @ str_int (trunc s') @ ''s'')"

text \<open>
  \<^verbatim>\<open>
  def val_loop(data_loader, model, decoder, logger, device):
      acc_avg = AverageMeter()
      wer_avg = AverageMeter()
      cer_avg = AverageMeter()
      strat_time = time.time()
      tqdm_data_loader = tqdm(data_loader, total=len(data_loader), leave=False)
      for images, texts, _, _ in tqdm_data_loader:
          batch_size = len(texts)
          text_preds = predict(images, model, decoder, device)
          acc_avg.update(get_accuracy(texts, text_preds), batch_size)
          wer_avg.update(wer(texts, text_preds), batch_size)
          cer_avg.update(cer(texts, text_preds), batch_size)
      loop_time = sec2min(time.time() - strat_time)
      logger.info(f'Validation, acc: {acc_avg.avg:.4f}, wer: {wer_avg.avg:.4f}, '
                  f'cer: {cer_avg.avg:.4f}, loop_time: {loop_time}')
      return acc_avg.avg
  \<close>
  \<^verbatim>\<open>predict\<close> (with the model, the decoder and the device it is given) and the three
  scoring functions belong to other modules: they are parameters, total functions of
  their arguments. The two readings of the clock are parameters as well. The progress
  bar changes nothing that the function returns or logs. An exception of an
  \<open>update\<close> leaves the function at once, so nothing is logged then.
\<close>

record 'img scoring =
  predict :: "'img \<Rightarrow> string list"
  get_accuracy :: "string list \<Rightarrow> string list \<Rightarrow> rat"
  wer :: "string list \<Rightarrow> string list \<Rightarrow> rat"
  cer :: "string list \<Rightarrow> string list \<Rightarrow> rat"

type_synonym ('img, 'a, 'b) batch = "'img \<times> string list \<times> 'a \<times> 'b"

fun val_batches ::
  "'img scoring \<Rightarrow> AverageMeter \<times> AverageMeter \<times> AverageMeter \<Rightarrow>
   ('img, 'a, 'b) batch list \<Rightarrow> error + (AverageMeter \<times> AverageMeter \<times> AverageMeter)" where
  "val_batches f meters [] = Inr meters"
| "val_batches f (acc_avg, wer_avg, cer_avg) ((images, texts, _, _) # rest) =
     (let batch_size = int (length texts);
          text_preds = predict f images
      in case update acc_avg (get_accuracy f texts text_preds) batch_size of
           Raise e _ \<Rightarrow> Inl e
         | Return acc_avg' \<Rightarrow>
             (case update wer_avg (wer f texts text_preds) batch_size of
                Raise e _ \<Rightarrow> Inl e
              | Return wer_avg' \<Rightarrow>
                  (case update cer_avg (cer f texts text_preds) batch_size of
                     Raise e _ \<Rightarrow> Inl e
                   | Return cer_avg' \<Rightarrow>
                       val_batches f (acc_avg', wer_avg', cer_avg') rest)))"

definition val_loop ::
  "world \<Rightarrow> rat \<Rightarrow> rat \<Rightarrow> 'img scoring \<Rightarrow> ('img, 'a, 'b) batch list \<Rightarrow> error + (rat \<times> world)" where
  "val_loop w strat_time end_time f data_loader =
     (case val_batches f (reset, reset, reset) data_loader of
        Inl e \<Rightarrow> Inl e
      | Inr (acc_avg, wer_avg, cer_avg) \<Rightarrow>
          (let loop_time = sec2min (end_time - strat_time)
           in Inr (avg acc_avg,
                   logger_info w
                     (InfoValidation (avg acc_avg) (avg wer_avg) (avg cer_avg) loop_time))))"

text \<open>
  Vocabulary for the statements: the (score, weight) pairs that one metric contributes
  over the batches, the weight being the length of the batch's text list, and the
  weighted average of such pairs, which is the initial 0 of a meter when there is no
  pair.
\<close>

definition scored ::
  "'img scoring \<Rightarrow> (string list \<Rightarrow> string list \<Rightarrow> rat) \<Rightarrow>
   ('img, 'a, 'b) batch list \<Rightarrow> (rat \<times> int) list" where
  "scored f metric data_loader =
     map (\<lambda>(images, texts, _, _). (metric texts (predict f images), int (length texts)))
       data_loader"

definition weighted_average :: "(rat \<times> int) list \<Rightarrow> rat" where
  "weighted_average xs =
     (if xs = [] then 0 else weighted_sum xs / of_int (total_weight xs))"

text \<open>
  The condition under which no \<open>update\<close> of the loop divides by zero: there is no
  batch, or the first batch has at least one text.
\<close>

definition first_batch_nonempty :: "('img, 'a, 'b) batch list \<Rightarrow> bool" where
  "first_batch_nonempty data_loader =
     (case data_loader of [] \<Rightarrow> True | (images, texts, _, _) # _ \<Rightarrow> texts \<noteq> [])"

section \<open>Properties of AverageMeter\<close>

lemma update_Return:
  "count self + n \<noteq> 0 \<Longrightarrow>
   update self val n =
     Return \<lparr>avg = (sum_m self + val * of_int n) / of_int (count self + n),
             sum_m = sum_m self + val * of_int n,
             count = count self + n\<rparr>"
  by (simp add: update_def Let_def)

lemma total_weight_nonneg:
  "\<forall>(v, n) \<in> set xs. 0 \<le> n \<Longrightarrow> 0 \<le> total_weight xs"
  by (induction xs) (auto simp: total_weight_def)

text \<open>
  The loop invariant of a run of updates with weights that are not negative, from a
  meter whose count is positive: no division by zero, and the three fields are the sums
  so far and their quotient.
\<close>

lemma updates_positive:
  "\<forall>(v, n) \<in> set xs. 0 \<le> n \<Longrightarrow> 0 < count self \<Longrightarrow>
   updates self xs =
     Return \<lparr>avg = (if xs = [] then avg self
                     else (sum_m self + weighted_sum xs) / of_int (count self + total_weight xs)),
             sum_m = sum_m self + weighted_sum xs,
             count = count self + total_weight xs\<rparr>"
proof (induction xs arbitrary: self)
  case Nil
  then show ?case by (simp add: weighted_sum_def total_weight_def)
next
  case (Cons x xs)
  obtain v n where x: "x = (v, n)" by (cases x)
  from Cons.prems x have n: "0 \<le> n" by simp
  with Cons.prems have nz: "count self + n \<noteq> 0" and pos: "0 < count self + n" by simp_all
  let ?s = "\<lparr>avg = (sum_m self + v * of_int n) / of_int (count self + n),
             sum_m = sum_m self + v * of_int n,
             count = count self + n\<rparr>"
  have "updates self (x # xs) = updates ?s xs"
    using update_Return[OF nz] x by simp
  also have "\<dots> = Return \<lparr>avg = (if xs = [] then avg ?s
                     else (sum_m ?s + weighted_sum xs) / of_int (count ?s + total_weight xs)),
             sum_m = sum_m ?s + weighted_sum xs,
             count = count ?s + total_weight xs\<rparr>"
    using Cons.prems pos by (intro Cons.IH) auto
  finally show ?case
    using x by (simp add: weighted_sum_def total_weight_def add.assoc)
qed

text \<open>
  From a reset meter the first weight has to be at least 1; the count is positive from
  then on.
\<close>

lemma updates_reset:
  assumes "1 \<le> n" and "\<forall>(v, n) \<in> set rest. 0 \<le> n"
  shows "updates reset ((v, n) # rest) =
           Return \<lparr>avg = weighted_sum ((v, n) # rest) / of_int (total_weight ((v, n) # rest)),
                   sum_m = weighted_sum ((v, n) # rest),
                   count = total_weight ((v, n) # rest)\<rparr>"
    and "0 < total_weight ((v, n) # rest)"
proof -
  from assms have all: "\<forall>(v, n) \<in> set ((v, n) # rest). 0 \<le> n" by simp
  from assms(1) have nz: "count reset + n \<noteq> 0" by (simp add: reset_def)
  let ?s = "\<lparr>avg = v * of_int n / of_int n, sum_m = v * of_int n, count = n\<rparr>"
  have "updates reset ((v, n) # rest) = updates ?s rest"
    using update_Return[OF nz, of v] by (simp add: reset_def)
  also have "\<dots> = Return \<lparr>avg = (if rest = [] then avg ?s
                     else (sum_m ?s + weighted_sum rest) / of_int (count ?s + total_weight rest)),
             sum_m = sum_m ?s + weighted_sum rest,
             count = count ?s + total_weight rest\<rparr>"
    using assms by (intro updates_positive) auto
  finally show "updates reset ((v, n) # rest) =
           Return \<lparr>avg = weighted_sum ((v, n) # rest) / of_int (total_weight ((v, n) # rest)),
                   sum_m = weighted_sum ((v, n) # rest),
                   count = total_weight ((v, n) # rest)\<rparr>"
    by (simp add: weighted_sum_def total_weight_def)
  from total_weight_nonneg[OF assms(2)] assms(1)
  show "0 < total_weight ((v, n) # rest)"
    by (simp add: total_weight_def)
qed

text \<open>
  Claim C7. On a freshly reset AverageMeter, after any finite sequence of
  \<open>update(value, weight)\<close> calls whose weights are all at least 1, every call has
  returned and \<open>avg\<close> is the sum of value times weight over the sequence divided by the
  sum of the weights. For a sequence that is not empty the divisor is positive, so the
  quotient is a proper division; for the empty sequence \<open>avg\<close> is the 0 that
  \<open>reset\<close> stored, which is also what HOL's \<open>0 / 0\<close> denotes.
\<close>

theorem AverageMeter_weighted_mean:
  assumes "\<forall>(v, n) \<in> set xs. 1 \<le> n"
  shows "\<exists>m. updates reset xs = Return m \<and>
             avg m = weighted_sum xs / of_int (total_weight xs) \<and>
             (xs = [] \<longrightarrow> avg m = 0) \<and>
             (xs \<noteq> [] \<longrightarrow> 0 < total_weight xs)"
proof (cases xs)
  case Nil
  then show ?thesis by (simp add: reset_def weighted_sum_def total_weight_def)
next
  case (Cons x rest)
  obtain v n where x: "x = (v, n)" by (cases x)
  from assms Cons x have n: "1 \<le> n" and "\<forall>(v, n) \<in> set rest. 1 \<le> n"
    by simp_all
  then have rest: "\<forall>(v, n) \<in> set rest. 0 \<le> n"
    by fastforce
  from updates_reset[OF n rest, of v] Cons x show ?thesis
    by simp
qed

theorem AverageMeter_weighted_mean_witness:
  "\<exists>m. updates reset [(1 / 2, 3), (1 / 3, 1)] = Return m \<and> avg m = 11 / 24"
  using AverageMeter_weighted_mean[of "[(1 / 2, 3), (1 / 3, 1)]"]
  by (simp add: weighted_sum_def total_weight_def)

text \<open>
  Claim C8, as stated, promises that \<open>update\<close> has no failure condition for a weight
  that is not negative, and names \<open>update(value, 0)\<close> on a meter whose count is 0. The
  code divides by the new count without a test: that call raises
  \<^verbatim>\<open>ZeroDivisionError\<close>.
\<close>

theorem update_zero_weight_raises:
  "update reset 5 0 = Raise ZeroDivisionError \<lparr>avg = 0, sum_m = 0, count = 0\<rparr>"
  by (simp add: update_def reset_def)

text \<open>
  Claim C8, amended. For every AverageMeter state and every \<open>update(value, weight)\<close>
  call, \<open>sum\<close> is increased by value times weight and \<open>count\<close> by weight. When the new
  count is not 0 (as it is when it is positive) the call returns and \<open>avg\<close> is the new
  sum divided by the new count. When the new count is 0 the call raises
  \<^verbatim>\<open>ZeroDivisionError\<close> after the two additions, and \<open>avg\<close> keeps the value it had.
\<close>

theorem update_effect:
  "update self val n =
     (if count self + n = 0
      then Raise ZeroDivisionError
             \<lparr>avg = avg self, sum_m = sum_m self + val * of_int n, count = count self + n\<rparr>
      else Return
             \<lparr>avg = (sum_m self + val * of_int n) / of_int (count self + n),
              sum_m = sum_m self + val * of_int n,
              count = count self + n\<rparr>)"
  by (simp add: update_def Let_def)

theorem update_effect_witness:
  "update \<lparr>avg = 1 / 2, sum_m = 1, count = 2\<rparr> (3 / 4) 2
     = Return \<lparr>avg = 5 / 8, sum_m = 5 / 2, count = 4\<rparr> \<and>
   update \<lparr>avg = 1 / 2, sum_m = 1, count = 2\<rparr> 7 (- 2)
     = Raise ZeroDivisionError \<lparr>avg = 1 / 2, sum_m = - 13, count = 0\<rparr>"
  using update_effect[of "\<lparr>avg = 1 / 2, sum_m = 1, count = 2\<rparr>" "3 / 4" 2]
        update_effect[of "\<lparr>avg = 1 / 2, sum_m = 1, count = 2\<rparr>" 7 "- 2"]
  by simp

section \<open>Properties of FilesLimitControl\<close>

lemma call_no_eviction:
  "int (length (saved_weights_paths self)) + 1 \<le> max_weights_to_save self \<Longrightarrow>
   FilesLimitControl_call self w p =
     Inr (self\<lparr>saved_weights_paths := saved_weights_paths self @ [p]\<rparr>, w)"
  by (simp add: FilesLimitControl_call_def Let_def)

lemma call_eviction:
  "max_weights_to_save self < int (length (saved_weights_paths self)) + 1 \<Longrightarrow>
   FilesLimitControl_call self w p =
     Inr (self\<lparr>saved_weights_paths := tl (saved_weights_paths self @ [p])\<rparr>,
          evict w (hd (saved_weights_paths self @ [p])))"
  by (cases "saved_weights_paths self")
     (auto simp: FilesLimitControl_call_def Let_def evict_def os_path_exists_def os_remove_def
        logger_info_def split: option.splits)

lemma register_all_append:
  "register_all self w (ps @ qs) =
     (case register_all self w ps of
        Inl e \<Rightarrow> Inl e
      | Inr (self', w') \<Rightarrow> register_all self' w' qs)"
  by (induction ps arbitrary: self w) (auto split: sum.splits)

lemma evict_all_snoc:
  "old \<notin> set olds \<Longrightarrow> evict (evict_all w olds) old = evict_all w (olds @ [old])"
  by (auto simp: evict_def evict_all_def os_path_exists_def restrict_map_def fun_eq_iff)

lemma evict_all_Nil: "evict_all w [] = w"
  by (simp add: evict_all_def restrict_map_def)

text \<open>
  The state after registering distinct paths on a new object of capacity \<open>N\<close>: the
  list holds the last \<open>N\<close> paths, the paths before them have been evicted. The proof
  adds one call at the end of the sequence.
\<close>

lemma register_all_fresh:
  assumes N: "0 \<le> N" and d: "distinct ps"
  shows "register_all \<lparr>saved_weights_paths = [], max_weights_to_save = N\<rparr> w ps =
     Inr (\<lparr>saved_weights_paths = drop (length ps - nat N) ps, max_weights_to_save = N\<rparr>,
          evict_all w (take (length ps - nat N) ps))"
  using d
proof (induction ps rule: rev_induct)
  case Nil
  show ?case by (simp add: evict_all_Nil)
next
  case (snoc p ps)
  let ?k = "length ps - nat N"
  let ?s = "\<lparr>saved_weights_paths = drop ?k ps, max_weights_to_save = N\<rparr>"
  from snoc have IH: "register_all \<lparr>saved_weights_paths = [], max_weights_to_save = N\<rparr> w ps =
     Inr (?s, evict_all w (take ?k ps))" by simp
  have step: "register_all \<lparr>saved_weights_paths = [], max_weights_to_save = N\<rparr> w (ps @ [p]) =
      FilesLimitControl_call ?s (evict_all w (take ?k ps)) p"
    by (simp add: register_all_append IH split: sum.splits prod.splits)
  show ?case
  proof (cases "length ps < nat N")
    case True
    then have "int (length (saved_weights_paths ?s)) + 1 \<le> max_weights_to_save ?s"
      by simp
    from call_no_eviction[OF this] True show ?thesis
      unfolding step by simp
  next
    case False
    then have len: "nat N \<le> length ps" by simp
    then have "max_weights_to_save ?s < int (length (saved_weights_paths ?s)) + 1"
      using N by simp
    from call_eviction[OF this]
    have c: "FilesLimitControl_call ?s (evict_all w (take ?k ps)) p =
       Inr (\<lparr>saved_weights_paths = tl (drop ?k ps @ [p]), max_weights_to_save = N\<rparr>,
            evict (evict_all w (take ?k ps)) (hd (drop ?k ps @ [p])))"
      by simp
    have k': "length (ps @ [p]) - nat N = Suc ?k" using len by simp
    have kle: "?k \<le> length ps" by simp
    have dk: "drop ?k ps @ [p] = drop ?k (ps @ [p])"
      using kle by simp
    have hd: "hd (drop ?k ps @ [p]) = (ps @ [p]) ! ?k"
      unfolding dk by (rule hd_drop_conv_nth) simp
    have "tl (drop ?k (ps @ [p])) = drop (Suc ?k) (ps @ [p])"
      by (simp only: drop_Suc tl_drop)
    then have tl: "tl (drop ?k ps @ [p]) = drop (Suc ?k) (ps @ [p])"
      by (simp only: dk)
    have "?k < length (ps @ [p])" by simp
    then have "take (Suc ?k) (ps @ [p]) = take ?k (ps @ [p]) @ [(ps @ [p]) ! ?k]"
      by (rule take_Suc_conv_app_nth)
    moreover have "take ?k (ps @ [p]) = take ?k ps"
      using kle by simp
    ultimately have tk: "take (Suc ?k) (ps @ [p]) = take ?k ps @ [(ps @ [p]) ! ?k]"
      by (simp only:)
    have "distinct (take (Suc ?k) (ps @ [p]))"
      using snoc.prems by (rule distinct_take)
    then have notin: "(ps @ [p]) ! ?k \<notin> set (take ?k ps)"
      unfolding tk by simp
    show ?thesis
      unfolding step c k' hd tl tk evict_all_snoc[OF notin] ..
  qed
qed

text \<open>The length bound is kept by one call, from any object that satisfies it.\<close>

lemma call_keeps_bound:
  assumes "0 \<le> max_weights_to_save self"
    and "int (length (saved_weights_paths self)) \<le> max_weights_to_save self"
  shows "\<exists>self' w'. FilesLimitControl_call self w p = Inr (self', w') \<and>
           max_weights_to_save self' = max_weights_to_save self \<and>
           int (length (saved_weights_paths self')) \<le> max_weights_to_save self'"
proof (cases "int (length (saved_weights_paths self)) + 1 \<le> max_weights_to_save self")
  case True
  from call_no_eviction[OF this] True show ?thesis by simp
next
  case False
  then have "max_weights_to_save self < int (length (saved_weights_paths self)) + 1"
    by simp
  from call_eviction[OF this] assms show ?thesis by simp
qed

lemma register_all_keeps_bound:
  assumes "0 \<le> max_weights_to_save self"
    and "int (length (saved_weights_paths self)) \<le> max_weights_to_save self"
  shows "\<exists>self' w'. register_all self w ps = Inr (self', w') \<and>
           max_weights_to_save self' = max_weights_to_save self \<and>
           int (length (saved_weights_paths self')) \<le> max_weights_to_save self'"
  using assms
proof (induction ps arbitrary: self w)
  case Nil
  then show ?case by simp
next
  case (Cons p ps)
  from call_keeps_bound[OF Cons.prems, of w p]
  obtain s1 w1 where c: "FilesLimitControl_call self w p = Inr (s1, w1)"
    and m: "max_weights_to_save s1 = max_weights_to_save self"
    and l: "int (length (saved_weights_paths s1)) \<le> max_weights_to_save s1"
    by blast
  from Cons.prems m have "0 \<le> max_weights_to_save s1" by simp
  from Cons.IH[OF this l, of w1] c m show ?case by auto
qed

text \<open>
  Claim C2. On a new FilesLimitControl of capacity \<open>N \<ge> 1\<close>, registering \<open>M > N\<close>
  distinct paths in sequence returns from every call, and the registered sequence splits
  into the evicted paths followed by the retained ones: the evicted paths are the
  \<open>M - N\<close> registered first and none of them is retained, the retained list has length
  \<open>N\<close> and is the last \<open>N\<close> registered paths in their order. Of the files on the disk
  exactly those at an evicted path are gone, and one record was logged for each evicted
  path that existed, in the order of eviction.
\<close>

theorem FilesLimitControl_keeps_latest:
  assumes "1 \<le> N" and "distinct ps" and "nat N < length ps"
  shows "\<exists>self' w' evicted.
           register_all (FilesLimitControl_init (Some N)) w ps = Inr (self', w') \<and>
           ps = evicted @ saved_weights_paths self' \<and>
           length evicted = length ps - nat N \<and>
           length (saved_weights_paths self') = nat N \<and>
           set evicted \<inter> set (saved_weights_paths self') = {} \<and>
           disk w' = disk w |` (- set evicted) \<and>
           logged w' = logged w @ map weights_removed (filter (os_path_exists w) evicted) \<and>
           max_weights_to_save self' = N"
proof -
  let ?k = "length ps - nat N"
  from assms have N: "0 \<le> N" by simp
  have run: "register_all (FilesLimitControl_init (Some N)) w ps =
     Inr (\<lparr>saved_weights_paths = drop ?k ps, max_weights_to_save = N\<rparr>,
          evict_all w (take ?k ps))"
    using register_all_fresh[OF N assms(2), of w] by (simp add: FilesLimitControl_init_def)
  have "distinct (take ?k ps @ drop ?k ps)" using assms(2) by simp
  then have disj: "set (take ?k ps) \<inter> set (drop ?k ps) = {}"
    by (simp only: distinct_append)
  have len: "length (drop ?k ps) = nat N" using assms(3) by simp
  have lent: "length (take ?k ps) = ?k" by simp
  show ?thesis
    apply (rule exI[of _ "\<lparr>saved_weights_paths = drop ?k ps, max_weights_to_save = N\<rparr>"])
    apply (rule exI[of _ "evict_all w (take ?k ps)"])
    apply (rule exI[of _ "take ?k ps"])
    using run disj len lent by (simp add: evict_all_def)
qed

text \<open>
  The scenario of capacity 2 and the paths w1, w2, w3, all three on the disk.
\<close>

theorem FilesLimitControl_keeps_latest_witness:
  "\<exists>self' w'.
     register_all (FilesLimitControl_init (Some 2))
       \<lparr>disk = [''w1'' \<mapsto> Other_content, ''w2'' \<mapsto> Other_content,
                ''w3'' \<mapsto> Other_content],
        heap = (\<lambda>a. []), next_addr = 0, logged = []\<rparr>
       [''w1'', ''w2'', ''w3''] = Inr (self', w') \<and>
     saved_weights_paths self' = [''w2'', ''w3''] \<and>
     disk w' = [''w2'' \<mapsto> Other_content, ''w3'' \<mapsto> Other_content] \<and>
     logged w' = [weights_removed ''w1'']"
proof -
  let ?w = "\<lparr>disk = [''w1'' \<mapsto> Other_content, ''w2'' \<mapsto> Other_content,
                     ''w3'' \<mapsto> Other_content],
             heap = (\<lambda>a. []), next_addr = 0, logged = []\<rparr>"
  let ?ps = "[''w1'', ''w2'', ''w3'']"
  have "(1::int) \<le> 2" and "distinct ?ps" and "nat 2 < length ?ps"
    by simp_all
  from FilesLimitControl_keeps_latest[OF this, of ?w]
  obtain self' w' evicted where
    run: "register_all (FilesLimitControl_init (Some 2)) ?w ?ps = Inr (self', w')"
    and parts: "?ps = evicted @ saved_weights_paths self'"
    and n: "length evicted = length ?ps - nat 2"
    and d: "disk w' = disk ?w |` (- set evicted)"
    and l: "logged w' = logged ?w @ map weights_removed (filter (os_path_exists ?w) evicted)"
    by blast
  from n obtain e where e: "evicted = [e]"
    by (cases evicted) simp_all
  with parts have ev: "evicted = [''w1'']" and kept: "saved_weights_paths self' = [''w2'', ''w3'']"
    by simp_all
  from d ev have "disk w' = [''w2'' \<mapsto> Other_content, ''w3'' \<mapsto> Other_content]"
    by (auto simp: restrict_map_def fun_eq_iff)
  moreover from l ev have "logged w' = [weights_removed ''w1'']"
    by (simp add: os_path_exists_def)
  ultimately show ?thesis using run kept by blast
qed

text \<open>
  Claim C3. For a FilesLimitControl of capacity \<open>N \<ge> 1\<close> and any sequence of register
  calls on it (of any length, so after each call of a longer sequence), every call
  returns and the retained list is not longer than the capacity, which is unchanged.
\<close>

theorem length_never_exceeds_capacity:
  assumes "1 \<le> N"
  shows "\<exists>self' w'. register_all (FilesLimitControl_init (Some N)) w ps = Inr (self', w') \<and>
           max_weights_to_save self' = N \<and>
           int (length (saved_weights_paths self')) \<le> N"
  using register_all_keeps_bound[of "FilesLimitControl_init (Some N)" w ps] assms
  by (auto simp: FilesLimitControl_init_def)

theorem length_never_exceeds_capacity_witness:
  "\<exists>self' w'. register_all (FilesLimitControl_init (Some 1)) 
         \<lparr>disk = Map.empty, heap = (\<lambda>a. []), next_addr = 0, logged = []\<rparr> [''a'', ''a'', ''b''] = Inr (self', w') \<and>
           max_weights_to_save self' = 1 \<and>
           int (length (saved_weights_paths self')) \<le> 1"
  using length_never_exceeds_capacity[of 1 "\<lparr>disk = Map.empty, heap = (\<lambda>a. []), next_addr = 0, logged = []\<rparr>" "[''a'', ''a'', ''b'']"]
  by simp


text \<open>
  Claim C6. A register call always returns, and the only path that can be on the disk
  before the call and gone after it is the one at the head of the list (at most one file
  is deleted per call). When the call triggers an eviction (the list with the new path
  is longer than the capacity), the head is removed from the list; if it is not on the
  disk the world is as before (nothing is deleted, nothing is logged); if it is on the
  disk it is deleted and exactly one record is added to the log, the information
  message \<^verbatim>\<open>Weigths removed '<path>'\<close> with the removed path between the two
  quotes.
\<close>

theorem eviction_effect:
  "\<exists>self' w'.
     FilesLimitControl_call self w p = Inr (self', w') \<and>
     {q. os_path_exists w q \<and> \<not> os_path_exists w' q} \<subseteq> {hd (saved_weights_paths self @ [p])} \<and>
     (max_weights_to_save self < int (length (saved_weights_paths self @ [p])) \<longrightarrow>
        saved_weights_paths self' = tl (saved_weights_paths self @ [p]) \<and>
        (\<not> os_path_exists w (hd (saved_weights_paths self @ [p])) \<longrightarrow> w' = w) \<and>
        (os_path_exists w (hd (saved_weights_paths self @ [p])) \<longrightarrow>
           disk w' = (disk w)(hd (saved_weights_paths self @ [p]) := None) \<and>
           logged w' = logged w @
             [Info (''Weigths removed '' @ [CHR 0x27] @
                    hd (saved_weights_paths self @ [p]) @ [CHR 0x27])]))"
proof (cases "int (length (saved_weights_paths self)) + 1 \<le> max_weights_to_save self")
  case True
  from call_no_eviction[OF this] True show ?thesis by simp
next
  case False
  then have "max_weights_to_save self < int (length (saved_weights_paths self)) + 1"
    by simp
  from call_eviction[OF this, of w p] show ?thesis
    by (auto simp: evict_def os_path_exists_def weights_removed_def)
qed

theorem eviction_effect_witness:
  "(\<exists>self' w'.
      FilesLimitControl_call \<lparr>saved_weights_paths = [''w1'', ''w2''], max_weights_to_save = 2\<rparr>
        \<lparr>disk = [''w2'' \<mapsto> Other_content], heap = (\<lambda>a. []), next_addr = 0, logged = []\<rparr>
        ''w3'' = Inr (self', w') \<and>
      saved_weights_paths self' = [''w2'', ''w3''] \<and>
      w' = \<lparr>disk = [''w2'' \<mapsto> Other_content], heap = (\<lambda>a. []), next_addr = 0, logged = []\<rparr>) \<and>
   (\<exists>self' w'.
      FilesLimitControl_call \<lparr>saved_weights_paths = [''w1'', ''w2''], max_weights_to_save = 2\<rparr>
        \<lparr>disk = [''w1'' \<mapsto> Other_content], heap = (\<lambda>a. []), next_addr = 0, logged = []\<rparr>
        ''w3'' = Inr (self', w') \<and>
      saved_weights_paths self' = [''w2'', ''w3''] \<and>
      disk w' = Map.empty \<and>
      logged w' = [Info (''Weigths removed '' @ [CHR 0x27] @ ''w1'' @ [CHR 0x27])])"
  using eviction_effect[of "\<lparr>saved_weights_paths = [''w1'', ''w2''], max_weights_to_save = 2\<rparr>"
          "\<lparr>disk = [''w2'' \<mapsto> Other_content], heap = (\<lambda>a. []), next_addr = 0, logged = []\<rparr>" "''w3''"]
        eviction_effect[of "\<lparr>saved_weights_paths = [''w1'', ''w2''], max_weights_to_save = 2\<rparr>"
          "\<lparr>disk = [''w1'' \<mapsto> Other_content], heap = (\<lambda>a. []), next_addr = 0, logged = []\<rparr>" "''w3''"]
  by (simp add: os_path_exists_def) blast

text \<open>
  Claim C10. An object constructed without the argument \<^verbatim>\<open>max_weights_to_save\<close>
  has capacity 2 (the docstring of the class says 3): the third registration on it
  evicts the path registered first, and deletes its file if it is on the disk.
\<close>

theorem default_capacity_is_two:
  "max_weights_to_save (FilesLimitControl_init None) = 2 \<and>
   register_all (FilesLimitControl_init None) w [p1, p2, p3] =
     Inr (\<lparr>saved_weights_paths = [p2, p3], max_weights_to_save = 2\<rparr>,
          if os_path_exists w p1
          then w\<lparr>disk := (disk w)(p1 := None), logged := logged w @ [weights_removed p1]\<rparr>
          else w)"
  by (simp add: FilesLimitControl_init_def FilesLimitControl_call_def Let_def os_remove_def
        os_path_exists_def logger_info_def split: option.splits)

section \<open>Properties of load_pretrain_model\<close>

text \<open>
  Assigning to a key that the dictionary has replaces its value where it stands.
\<close>

lemma update_existing:
  "distinct (map fst D) \<Longrightarrow> (k, t) \<in> set D \<Longrightarrow>
   AList.update k s D = map (\<lambda>(k', t'). (k', if k' = k then s else t')) D"
proof (induction D)
  case Nil
  then show ?case by simp
next
  case (Cons e D)
  obtain k0 t0 where e: "e = (k0, t0)" by (cases e)
  show ?case
  proof (cases "k0 = k")
    case True
    with Cons.prems e have "k \<notin> fst ` set D" by simp
    then have "map (\<lambda>(k', t'). (k', if k' = k then s else t')) D = D"
      by (induction D) (auto)
    with True e show ?thesis by simp
  next
    case False
    with Cons e show ?thesis by auto
  qed
qed

text \<open>
  The loop writes to the log and to the object \<open>new_dict\<close>, and to nothing else.
\<close>

lemma merge_loop_frame:
  "merge_loop new old w ks = Inr w' \<Longrightarrow>
   disk w' = disk w \<and> next_addr w' = next_addr w \<and> (\<forall>b. b \<noteq> new \<longrightarrow> heap w' b = heap w b)"
proof (induction ks arbitrary: w)
  case Nil
  then show ?case by simp
next
  case (Cons k ks)
  show ?case
  proof (cases "dict_contains (heap w old) k")
    case False
    with Cons.prems have "merge_loop new old (logger_info w (not_loaded k)) ks = Inr w'"
      by simp
    from Cons.IH[OF this] show ?thesis by (simp add: logger_info_def)
  next
    case True
    with Cons.prems obtain t s where
      t: "dict_getitem (heap w new) k = Inr t" and s: "dict_getitem (heap w old) k = Inr s"
      by (auto split: sum.splits)
    show ?thesis
    proof (cases "shape t = shape s")
      case True
      with Cons.prems \<open>dict_contains (heap w old) k\<close> t s
      have "merge_loop new old (dict_setitem w new k s) ks = Inr w'" by simp
      from Cons.IH[OF this] show ?thesis by (simp add: dict_setitem_def)
    next
      case False
      with Cons.prems \<open>dict_contains (heap w old) k\<close> t s
      have "merge_loop new old (logger_info w (not_loaded k)) ks = Inr w'" by simp
      from Cons.IH[OF this] show ?thesis by (simp add: logger_info_def)
    qed
  qed
qed

text \<open>
  The loop invariant, over the entries \<open>es\<close> that remain to be visited: they are
  entries of the target dictionary as it is, their keys are distinct, and the source
  dictionary is another object.
\<close>

lemma merge_loop_entries:
  assumes "new \<noteq> old" and "heap w old = S"
  shows "heap w new = D \<Longrightarrow> distinct (map fst D) \<Longrightarrow> set es \<subseteq> set D \<Longrightarrow>
     distinct (map fst es) \<Longrightarrow>
     merge_loop new old w (map fst es) =
       Inr (w\<lparr>heap := (heap w)(new := merge_entries S (fst ` set es) D),
              logged := logged w @ map not_loaded (map fst (filter (\<lambda>(k, t). \<not> loaded S k t) es))\<rparr>)"
  using assms(2)
proof (induction es arbitrary: w D)
  case Nil
  then show ?case by (simp add: merge_entries_def fun_upd_idem)
next
  case (Cons e es)
  obtain k t where e: "e = (k, t)" by (cases e)
  from Cons.prems e have kt: "(k, t) \<in> set D" by simp
  with Cons.prems have mo: "map_of D k = Some t" by simp
  then have get_new: "dict_getitem (heap w new) k = Inr t"
    using Cons.prems by (simp add: dict_getitem_def)
  from Cons.prems e have knot: "k \<notin> fst ` set es" by simp
  from Cons.prems have sub: "set es \<subseteq> set D" and des: "distinct (map fst es)" by simp_all
  have old_log: "heap (logger_info w (not_loaded k)) old = S"
      "heap (logger_info w (not_loaded k)) new = D"
    using Cons.prems by (simp_all add: logger_info_def)
  have same: "\<And>k0 t0. (k0, t0) \<in> set D \<Longrightarrow> k0 = k \<Longrightarrow> t0 = t"
    using Cons.prems(2) mo by (metis map_of_is_SomeI option.inject)
  show ?case
  proof (cases "loaded S k t")
    case False
    have skip: "merge_loop new old w (map fst (e # es)) =
        merge_loop new old (logger_info w (not_loaded k)) (map fst es)"
      using False e get_new Cons.prems(5)
      by (auto simp: loaded_def dict_contains_def dict_getitem_def map_of_eq_None_iff
            split: option.splits)
    have mv: "merged_value S k t = t"
      using False by (auto simp: loaded_def merged_value_def split: option.splits)
    have me: "merge_entries S (fst ` set (e # es)) D = merge_entries S (fst ` set es) D"
      unfolding merge_entries_def using e mv same by (auto)
    have ih: "merge_loop new old (logger_info w (not_loaded k)) (map fst es) =
        Inr (logger_info w (not_loaded k)
              \<lparr>heap := (heap (logger_info w (not_loaded k)))
                         (new := merge_entries S (fst ` set es) D),
               logged := logged (logger_info w (not_loaded k)) @
                 map not_loaded (map fst (filter (\<lambda>(k, t). \<not> loaded S k t) es))\<rparr>)"
      by (rule Cons.IH[OF old_log(2) Cons.prems(2) sub des old_log(1)])
    have fin: "logger_info w (not_loaded k)
              \<lparr>heap := (heap (logger_info w (not_loaded k)))
                         (new := merge_entries S (fst ` set es) D),
               logged := logged (logger_info w (not_loaded k)) @
                 map not_loaded (map fst (filter (\<lambda>(k, t). \<not> loaded S k t) es))\<rparr>
          = w\<lparr>heap := (heap w)(new := merge_entries S (fst ` set (e # es)) D),
              logged := logged w @
                 map not_loaded (map fst (filter (\<lambda>(k, t). \<not> loaded S k t) (e # es)))\<rparr>"
      unfolding me using False e by (simp add: logger_info_def)
    show ?thesis
      by (simp only: skip ih fin)
  next
    case True
    then obtain s where s: "map_of S k = Some s" and sh: "shape t = shape s"
      by (auto simp: loaded_def split: option.splits)
    let ?D' = "map (\<lambda>(k', t'). (k', if k' = k then s else t')) D"
    let ?w' = "dict_setitem w new k s"
    have D': "heap ?w' new = ?D'"
      using Cons.prems(1,2) kt by (simp add: dict_setitem_def update_existing)
    have S': "heap ?w' old = S"
      using assms(1) Cons.prems(5) by (simp add: dict_setitem_def)
    have take: "merge_loop new old w (map fst (e # es)) = merge_loop new old ?w' (map fst es)"
      using e get_new s sh Cons.prems(5)
      by (auto simp: dict_contains_def dict_getitem_def dest: map_of_SomeD intro: rev_image_eqI)
    have dD': "distinct (map fst ?D')"
      using Cons.prems(2) by (simp add: comp_def case_prod_beta)
    have sub': "set es \<subseteq> set ?D'"
    proof
      fix x assume x: "x \<in> set es"
      obtain k0 t0 where x0: "x = (k0, t0)" by (cases x)
      from x sub have "x \<in> set D" by blast
      moreover from x knot x0 have "k0 \<noteq> k" by force
      ultimately show "x \<in> set ?D'" using x0 by (force simp: image_iff)
    qed
    have mv: "merged_value S k t = s"
      using s sh by (simp add: merged_value_def)
    have me: "merge_entries S (fst ` set es) ?D' = merge_entries S (fst ` set (e # es)) D"
      unfolding merge_entries_def using e mv same knot by (auto)
    have ih: "merge_loop new old ?w' (map fst es) =
        Inr (?w'\<lparr>heap := (heap ?w')(new := merge_entries S (fst ` set es) ?D'),
               logged := logged ?w' @
                 map not_loaded (map fst (filter (\<lambda>(k, t). \<not> loaded S k t) es))\<rparr>)"
      by (rule Cons.IH[OF D' dD' sub' des S'])
    have fin: "?w'\<lparr>heap := (heap ?w')(new := merge_entries S (fst ` set es) ?D'),
               logged := logged ?w' @
                 map not_loaded (map fst (filter (\<lambda>(k, t). \<not> loaded S k t) es))\<rparr>
          = w\<lparr>heap := (heap w)(new := merge_entries S (fst ` set (e # es)) D),
              logged := logged w @
                 map not_loaded (map fst (filter (\<lambda>(k, t). \<not> loaded S k t) (e # es)))\<rparr>"
      unfolding me using True e by (simp add: dict_setitem_def)
    show ?thesis
      by (simp only: take ih fin)
  qed
qed

lemma merge_entries_all:
  "merge_entries S (fst ` set D) D = map (\<lambda>(k, t). (k, merged_value S k t)) D"
  by (force simp: merge_entries_def)

lemma load_pretrain_model_Checkpoint:
  assumes ck: "disk w p = Some (Checkpoint S)"
    and m: "model < next_addr w"
    and d: "distinct (map fst (heap w model))"
  shows "load_pretrain_model w p model =
     Inr (Suc (next_addr w),
          w\<lparr>heap := (heap w)(next_addr w := S,
                 Suc (next_addr w) := map (\<lambda>(k, t). (k, merged_value S k t)) (heap w model)),
            next_addr := Suc (Suc (next_addr w)),
            logged := logged w @
              map not_loaded (map fst (filter (\<lambda>(k, t). \<not> loaded S k t) (heap w model)))\<rparr>)"
proof -
  let ?n = "next_addr w"
  let ?T = "heap w model"
  let ?w1 = "w\<lparr>heap := (heap w)(?n := S), next_addr := Suc ?n\<rparr>"
  let ?w2 = "?w1\<lparr>heap := (heap ?w1)(Suc ?n := ?T), next_addr := Suc (Suc ?n)\<rparr>"
  have tl: "torch_load w p = Inr (?n, ?w1)"
    using ck by (simp add: torch_load_def alloc_def)
  have sd: "state_dict ?w1 model = (Suc ?n, ?w2)"
    using m by (simp add: state_dict_def alloc_def)
  have ml: "merge_loop (Suc ?n) ?n ?w2 (map fst ?T) =
       Inr (?w2\<lparr>heap := (heap ?w2)(Suc ?n := merge_entries S (fst ` set ?T) ?T),
              logged := logged ?w2 @
                map not_loaded (map fst (filter (\<lambda>(k, t). \<not> loaded S k t) ?T))\<rparr>)"
    by (rule merge_loop_entries) (use d in simp_all)
  have h2: "heap ?w2 (Suc ?n) = ?T" by simp
  show ?thesis
    by (simp only: load_pretrain_model_def tl sd sum.case prod.case h2 ml merge_entries_all)
       simp
qed

lemma map_of_keyed_map:
  "map_of (map (\<lambda>(k, t). (k, g k t)) T) key = map_option (g key) (map_of T key)"
  by (induction T) auto

text \<open>
  Claim C1. When the checkpoint file holds the source mapping, the module is an object
  of the heap and the keys of its parameter table (the target) are distinct,
  \<open>load_pretrain_model\<close> returns a dictionary with the keys of the target, in their
  order. A key of the target has the source's tensor when the source has the key with a
  tensor of the same shape, and the target's tensor otherwise (the key is not in the
  source, or the shapes differ). A key that the target does not have is not in the
  result, whether or not the source has it.
\<close>

theorem load_pretrain_model_merge:
  assumes "disk w weights_path = Some (Checkpoint source)"
    and "model < next_addr w"
    and "distinct (map fst (heap w model))"
  shows "\<exists>new_dict w'.
     load_pretrain_model w weights_path model = Inr (new_dict, w') \<and>
     map fst (heap w' new_dict) = map fst (heap w model) \<and>
     (\<forall>key t. map_of (heap w model) key = Some t \<longrightarrow>
        map_of (heap w' new_dict) key =
          Some (case map_of source key of
                  None \<Rightarrow> t
                | Some s \<Rightarrow> if shape t = shape s then s else t)) \<and>
     (\<forall>key. map_of (heap w model) key = None \<longrightarrow> map_of (heap w' new_dict) key = None)"
  unfolding load_pretrain_model_Checkpoint[OF assms]
  by (simp add: map_of_keyed_map comp_def case_prod_beta merged_value_def)

text \<open>
  The scenario of the target with a (3 by 3) and b (2 by 2) and the source with a
  (3 by 3, all ones) and c (2 by 2).
\<close>

theorem load_pretrain_model_merge_witness:
  "\<exists>new_dict w'.
     load_pretrain_model
       \<lparr>disk = [''ckpt'' \<mapsto> Checkpoint
                  [(''a'', \<lparr>shape = [3, 3], elems = replicate 9 1\<rparr>),
                   (''c'', \<lparr>shape = [2, 2], elems = replicate 4 5\<rparr>)]],
        heap = (\<lambda>a. [])(0 := [(''a'', \<lparr>shape = [3, 3], elems = replicate 9 0\<rparr>),
                               (''b'', \<lparr>shape = [2, 2], elems = replicate 4 0\<rparr>)]),
        next_addr = 1, logged = []\<rparr> ''ckpt'' 0 = Inr (new_dict, w') \<and>
     map fst (heap w' new_dict) = [''a'', ''b''] \<and>
     map_of (heap w' new_dict) ''a'' = Some \<lparr>shape = [3, 3], elems = replicate 9 1\<rparr> \<and>
     map_of (heap w' new_dict) ''b'' = Some \<lparr>shape = [2, 2], elems = replicate 4 0\<rparr> \<and>
     map_of (heap w' new_dict) ''c'' = None"
proof -
  let ?source = "[(''a'', \<lparr>shape = [3, 3], elems = replicate 9 1\<rparr>),
                  (''c'', \<lparr>shape = [2, 2], elems = replicate 4 5\<rparr>)]"
  let ?target = "[(''a'', \<lparr>shape = [3, 3], elems = replicate 9 0\<rparr>),
                  (''b'', \<lparr>shape = [2, 2], elems = replicate 4 0\<rparr>)]"
  let ?w = "\<lparr>disk = [''ckpt'' \<mapsto> Checkpoint ?source],
             heap = (\<lambda>a. [])(0 := ?target), next_addr = 1, logged = []\<rparr>"
  have "disk ?w ''ckpt'' = Some (Checkpoint ?source)"
    and "0 < next_addr ?w"
    and "distinct (map fst (heap ?w 0))"
    by simp_all
  from load_pretrain_model_merge[OF this]
  obtain new_dict w' where
    run: "load_pretrain_model ?w ''ckpt'' 0 = Inr (new_dict, w')"
    and keys: "map fst (heap w' new_dict) = map fst (heap ?w 0)"
    and present: "\<And>key t. map_of (heap ?w 0) key = Some t \<Longrightarrow>
        map_of (heap w' new_dict) key =
          Some (case map_of ?source key of
                  None \<Rightarrow> t
                | Some s \<Rightarrow> if shape t = shape s then s else t)"
    and absent: "\<And>key. map_of (heap ?w 0) key = None \<Longrightarrow> map_of (heap w' new_dict) key = None"
    by blast
  from keys have "map fst (heap w' new_dict) = [''a'', ''b'']"
    by simp
  moreover from present[of "''a''" "\<lparr>shape = [3, 3], elems = replicate 9 0\<rparr>"]
  have "map_of (heap w' new_dict) ''a'' = Some \<lparr>shape = [3, 3], elems = replicate 9 1\<rparr>"
    by simp
  moreover from present[of "''b''" "\<lparr>shape = [2, 2], elems = replicate 4 0\<rparr>"]
  have "map_of (heap w' new_dict) ''b'' = Some \<lparr>shape = [2, 2], elems = replicate 4 0\<rparr>"
    by simp
  moreover from absent[of "''c''"]
  have "map_of (heap w' new_dict) ''c'' = None"
    by simp
  ultimately show ?thesis using run by (intro exI conjI)
qed

text \<open>
  Claim C4. \<open>load_pretrain_model\<close> raises exactly when \<^verbatim>\<open>torch.load\<close> does: on a
  path that does not exist and on a file that is not a pickled mapping, and the
  exception is the one of \<^verbatim>\<open>torch.load\<close>. When the file holds a mapping the
  function returns, whatever keys and shapes the two mappings have, and what it returns
  is the merged mapping: the entries of the target in their order, with the source's
  tensor where the source has the key with a tensor of the same shape and the target's
  tensor elsewhere. It has logged one information message
  \<^verbatim>\<open>Weights <key> were not loaded\<close> for each key of the target that was not taken
  from the source (the key is missing in the source, or the shapes differ), in the order
  of the target, and nothing else.
\<close>

theorem load_pretrain_model_failures:
  assumes "model < next_addr w" and "distinct (map fst (heap w model))"
  shows "(disk w weights_path = None \<longrightarrow>
            load_pretrain_model w weights_path model = Inl FileNotFoundError) \<and>
         (disk w weights_path = Some Other_content \<longrightarrow>
            load_pretrain_model w weights_path model = Inl UnpicklingError) \<and>
         (\<forall>source. disk w weights_path = Some (Checkpoint source) \<longrightarrow>
            (\<exists>new_dict w'.
               load_pretrain_model w weights_path model = Inr (new_dict, w') \<and>
               heap w' new_dict =
                 map (\<lambda>(key, t).
                        (key, case map_of source key of
                                None \<Rightarrow> t
                              | Some s \<Rightarrow> if shape t = shape s then s else t))
                   (heap w model) \<and>
               logged w' = logged w @
                 map (\<lambda>key. Info (''Weights '' @ key @ '' were not loaded''))
                   (map fst
                      (filter (\<lambda>(key, t). case map_of source key of
                                               None \<Rightarrow> True
                                             | Some s \<Rightarrow> shape t \<noteq> shape s)
                         (heap w model)))))"
proof (intro conjI impI allI)
  assume "disk w weights_path = None"
  then show "load_pretrain_model w weights_path model = Inl FileNotFoundError"
    by (simp add: load_pretrain_model_def torch_load_def)
next
  assume "disk w weights_path = Some Other_content"
  then show "load_pretrain_model w weights_path model = Inl UnpicklingError"
    by (simp add: load_pretrain_model_def torch_load_def)
next
  fix source
  assume ck: "disk w weights_path = Some (Checkpoint source)"
  have mv: "merged_value source k t =
      (case map_of source k of None \<Rightarrow> t | Some s \<Rightarrow> if shape t = shape s then s else t)"
    for k t
    by (simp add: merged_value_def)
  have ld: "(\<not> loaded source k t) =
      (case map_of source k of None \<Rightarrow> True | Some s \<Rightarrow> shape t \<noteq> shape s)"
    for k t
    by (simp add: loaded_def split: option.splits)
  have nl: "not_loaded = (\<lambda>key. Info (''Weights '' @ key @ '' were not loaded''))"
    by (simp add: not_loaded_def fun_eq_iff)
  from load_pretrain_model_Checkpoint[OF ck assms]
  show "\<exists>new_dict w'.
               load_pretrain_model w weights_path model = Inr (new_dict, w') \<and>
               heap w' new_dict =
                 map (\<lambda>(key, t).
                        (key, case map_of source key of
                                None \<Rightarrow> t
                              | Some s \<Rightarrow> if shape t = shape s then s else t))
                   (heap w model) \<and>
               logged w' = logged w @
                 map (\<lambda>key. Info (''Weights '' @ key @ '' were not loaded''))
                   (map fst
                      (filter (\<lambda>(key, t). case map_of source key of
                                               None \<Rightarrow> True
                                             | Some s \<Rightarrow> shape t \<noteq> shape s)
                         (heap w model)))"
    by (simp add: mv ld nl)
qed

text \<open>
  A missing file, a file that is not a pickled mapping, and a checkpoint with a key that
  is merged (a), a key that the source lacks (b) and a key whose shapes differ (d).
\<close>

theorem load_pretrain_model_failures_witness:
  "load_pretrain_model
     \<lparr>disk = [''other'' \<mapsto> Other_content],
      heap = (\<lambda>a. [])(0 := [(''b'', \<lparr>shape = [2, 2], elems = replicate 4 0\<rparr>)]),
      next_addr = 1, logged = []\<rparr> ''missing'' 0 = Inl FileNotFoundError \<and>
   load_pretrain_model
     \<lparr>disk = [''other'' \<mapsto> Other_content],
      heap = (\<lambda>a. [])(0 := [(''b'', \<lparr>shape = [2, 2], elems = replicate 4 0\<rparr>)]),
      next_addr = 1, logged = []\<rparr> ''other'' 0 = Inl UnpicklingError \<and>
   (\<exists>new_dict w'.
      load_pretrain_model
        \<lparr>disk = [''ckpt'' \<mapsto> Checkpoint
                  [(''a'', \<lparr>shape = [3, 3], elems = replicate 9 1\<rparr>),
                   (''d'', \<lparr>shape = [5], elems = replicate 5 1\<rparr>)]],
         heap = (\<lambda>a. [])(0 := [(''a'', \<lparr>shape = [3, 3], elems = replicate 9 0\<rparr>),
                                (''b'', \<lparr>shape = [2, 2], elems = replicate 4 0\<rparr>),
                                (''d'', \<lparr>shape = [4], elems = replicate 4 0\<rparr>)]),
         next_addr = 1, logged = []\<rparr> ''ckpt'' 0 = Inr (new_dict, w') \<and>
      heap w' new_dict = [(''a'', \<lparr>shape = [3, 3], elems = replicate 9 1\<rparr>),
                          (''b'', \<lparr>shape = [2, 2], elems = replicate 4 0\<rparr>),
                          (''d'', \<lparr>shape = [4], elems = replicate 4 0\<rparr>)] \<and>
      logged w' = [Info ''Weights b were not loaded'', Info ''Weights d were not loaded''])"
  using load_pretrain_model_failures[of 0
     "\<lparr>disk = [''other'' \<mapsto> Other_content],
      heap = (\<lambda>a. [])(0 := [(''b'', \<lparr>shape = [2, 2], elems = replicate 4 0\<rparr>)]),
      next_addr = 1, logged = []\<rparr>" "''missing''"]
    load_pretrain_model_failures[of 0
     "\<lparr>disk = [''other'' \<mapsto> Other_content],
      heap = (\<lambda>a. [])(0 := [(''b'', \<lparr>shape = [2, 2], elems = replicate 4 0\<rparr>)]),
      next_addr = 1, logged = []\<rparr>" "''other''"]
    load_pretrain_model_failures[of 0
     "\<lparr>disk = [''ckpt'' \<mapsto> Checkpoint
                  [(''a'', \<lparr>shape = [3, 3], elems = replicate 9 1\<rparr>),
                   (''d'', \<lparr>shape = [5], elems = replicate 5 1\<rparr>)]],
         heap = (\<lambda>a. [])(0 := [(''a'', \<lparr>shape = [3, 3], elems = replicate 9 0\<rparr>),
                                (''b'', \<lparr>shape = [2, 2], elems = replicate 4 0\<rparr>),
                                (''d'', \<lparr>shape = [4], elems = replicate 4 0\<rparr>)]),
         next_addr = 1, logged = []\<rparr>" "''ckpt''"]
  by simp

text \<open>
  Claim C5. A call that returns has changed no object that existed before the call, the
  parameter table of the module among them, and has not changed the disk. The
  dictionary that \<^verbatim>\<open>torch.load\<close> built (at the first free address) still holds
  the content of the checkpoint file, and the returned dictionary is an object that did
  not exist before the call: the assignments of the loop went to the dictionary that
  \<^verbatim>\<open>state_dict()\<close> built inside the call.
\<close>

theorem load_pretrain_model_frame:
  assumes m: "model < next_addr w"
    and r: "load_pretrain_model w weights_path model = Inr (new_dict, w')"
  shows "disk w' = disk w \<and>
         (\<forall>a. a < next_addr w \<longrightarrow> heap w' a = heap w a) \<and>
         next_addr w < new_dict \<and>
         disk w weights_path = Some (Checkpoint (heap w' (next_addr w)))"
proof -
  let ?n = "next_addr w"
  from r obtain S where ck: "disk w weights_path = Some (Checkpoint S)"
    by (auto simp: load_pretrain_model_def torch_load_def split: option.splits disk_file.splits)
  let ?w1 = "w\<lparr>heap := (heap w)(?n := S), next_addr := Suc ?n\<rparr>"
  let ?w2 = "?w1\<lparr>heap := (heap ?w1)(Suc ?n := heap ?w1 model), next_addr := Suc (Suc ?n)\<rparr>"
  have tl: "torch_load w weights_path = Inr (?n, ?w1)"
    using ck by (simp add: torch_load_def alloc_def)
  have sd: "state_dict ?w1 model = (Suc ?n, ?w2)"
    by (simp add: state_dict_def alloc_def)
  from r have "(case merge_loop (Suc ?n) ?n ?w2 (map fst (heap ?w2 (Suc ?n))) of
                  Inl e \<Rightarrow> Inl e | Inr w3 \<Rightarrow> Inr (Suc ?n, w3)) = Inr (new_dict, w')"
    by (simp only: load_pretrain_model_def tl sd sum.case prod.case)
  then have ml: "merge_loop (Suc ?n) ?n ?w2 (map fst (heap ?w2 (Suc ?n))) = Inr w'"
    and nd: "new_dict = Suc ?n"
    by (auto split: sum.splits)
  from merge_loop_frame[OF ml]
  have "disk w' = disk ?w2" and "\<forall>b. b \<noteq> Suc ?n \<longrightarrow> heap w' b = heap ?w2 b"
    by simp_all
  then show ?thesis using ck nd by simp
qed

theorem load_pretrain_model_frame_witness:
  "\<exists>new_dict w'.
     load_pretrain_model
       \<lparr>disk = [''ckpt'' \<mapsto> Checkpoint
                  [(''a'', \<lparr>shape = [3, 3], elems = replicate 9 1\<rparr>),
                   (''c'', \<lparr>shape = [2, 2], elems = replicate 4 5\<rparr>)]],
        heap = (\<lambda>a. [])(0 := [(''a'', \<lparr>shape = [3, 3], elems = replicate 9 0\<rparr>),
                               (''b'', \<lparr>shape = [2, 2], elems = replicate 4 0\<rparr>)]),
        next_addr = 1, logged = []\<rparr> ''ckpt'' 0 = Inr (new_dict, w') \<and>
     disk w' = [''ckpt'' \<mapsto> Checkpoint
                  [(''a'', \<lparr>shape = [3, 3], elems = replicate 9 1\<rparr>),
                   (''c'', \<lparr>shape = [2, 2], elems = replicate 4 5\<rparr>)]] \<and>
     heap w' 0 = [(''a'', \<lparr>shape = [3, 3], elems = replicate 9 0\<rparr>),
                  (''b'', \<lparr>shape = [2, 2], elems = replicate 4 0\<rparr>)] \<and>
     heap w' 1 = [(''a'', \<lparr>shape = [3, 3], elems = replicate 9 1\<rparr>),
                  (''c'', \<lparr>shape = [2, 2], elems = replicate 4 5\<rparr>)] \<and>
     1 < new_dict"
proof -
  let ?source = "[(''a'', \<lparr>shape = [3, 3], elems = replicate 9 1\<rparr>),
                  (''c'', \<lparr>shape = [2, 2], elems = replicate 4 5\<rparr>)]"
  let ?target = "[(''a'', \<lparr>shape = [3, 3], elems = replicate 9 0\<rparr>),
                  (''b'', \<lparr>shape = [2, 2], elems = replicate 4 0\<rparr>)]"
  let ?w = "\<lparr>disk = [''ckpt'' \<mapsto> Checkpoint ?source],
             heap = (\<lambda>a. [])(0 := ?target), next_addr = 1, logged = []\<rparr>"
  have ck: "disk ?w ''ckpt'' = Some (Checkpoint ?source)"
    and m: "0 < next_addr ?w"
    and d: "distinct (map fst (heap ?w 0))"
    by simp_all
  from load_pretrain_model_Checkpoint[OF ck m d]
  obtain new_dict w' where run: "load_pretrain_model ?w ''ckpt'' 0 = Inr (new_dict, w')"
    by blast
  from load_pretrain_model_frame[OF m run]
  have "disk w' = disk ?w" and "heap w' 0 = heap ?w 0"
    and "next_addr ?w < new_dict"
    and "disk ?w ''ckpt'' = Some (Checkpoint (heap w' (next_addr ?w)))"
    by simp_all
  then have "disk w' = [''ckpt'' \<mapsto> Checkpoint ?source]" and "heap w' 0 = ?target"
    and "heap w' 1 = ?source" and "1 < new_dict"
    by simp_all
  with run show ?thesis by (intro exI conjI)
qed

section \<open>Properties of val_loop\<close>

lemma sec2min_190: "sec2min (200 - 10) = ''3m 10s''"
  by code_simp

lemma updates_Cons_Return:
  "updates self ((v, n) # rest) = Return r \<Longrightarrow>
   \<exists>s. update self v n = Return s \<and> updates s rest = Return r"
  by (cases "update self v n") auto

text \<open>
  The three meters of the loop are updated side by side: when the three runs of
  updates return, the loop returns their results.
\<close>

lemma val_batches_updates:
  "updates a (scored f (get_accuracy f) bs) = Return a' \<Longrightarrow>
   updates b (scored f (wer f) bs) = Return b' \<Longrightarrow>
   updates c (scored f (cer f) bs) = Return c' \<Longrightarrow>
   val_batches f (a, b, c) bs = Inr (a', b', c')"
proof (induction bs arbitrary: a b c)
  case Nil
  then show ?case by (simp add: scored_def)
next
  case (Cons batch bs)
  obtain images texts x y where batch: "batch = (images, texts, x, y)"
    by (cases batch) auto
  let ?n = "int (length texts)"
  let ?p = "predict f images"
  have sc: "scored f metric (batch # bs) = (metric texts ?p, ?n) # scored f metric bs" for metric
    by (simp add: scored_def batch)
  from Cons.prems(1) obtain a1 where a1: "update a (get_accuracy f texts ?p) ?n = Return a1"
      and a2: "updates a1 (scored f (get_accuracy f) bs) = Return a'"
    unfolding sc by (blast dest: updates_Cons_Return)
  from Cons.prems(2) obtain b1 where b1: "update b (wer f texts ?p) ?n = Return b1"
      and b2: "updates b1 (scored f (wer f) bs) = Return b'"
    unfolding sc by (blast dest: updates_Cons_Return)
  from Cons.prems(3) obtain c1 where c1: "update c (cer f texts ?p) ?n = Return c1"
      and c2: "updates c1 (scored f (cer f) bs) = Return c'"
    unfolding sc by (blast dest: updates_Cons_Return)
  from Cons.IH[OF a2 b2 c2] a1 b1 c1 show ?case
    by (simp add: batch Let_def)
qed

lemma updates_scored:
  assumes "first_batch_nonempty data_loader"
  shows "\<exists>m. updates reset (scored f metric data_loader) = Return m \<and>
             avg m = weighted_average (scored f metric data_loader)"
    and "data_loader \<noteq> [] \<Longrightarrow> 0 < total_weight (scored f metric data_loader)"
proof -
  have "(\<exists>m. updates reset (scored f metric data_loader) = Return m \<and>
             avg m = weighted_average (scored f metric data_loader)) \<and>
        (data_loader \<noteq> [] \<longrightarrow> 0 < total_weight (scored f metric data_loader))"
  proof (cases data_loader)
    case Nil
    then show ?thesis by (simp add: scored_def weighted_average_def reset_def)
  next
    case (Cons batch bs)
    obtain images texts x y where batch: "batch = (images, texts, x, y)"
      by (cases batch) auto
    have sc: "scored f metric data_loader =
        (metric texts (predict f images), int (length texts)) # scored f metric bs"
      by (simp add: scored_def batch Cons)
    from assms Cons batch have n: "1 \<le> int (length texts)"
      by (cases texts) (simp_all add: first_batch_nonempty_def)
    have rest: "\<forall>(v, n) \<in> set (scored f metric bs). 0 \<le> n"
      by (auto simp: scored_def)
    from updates_reset[OF n rest] Cons show ?thesis
      unfolding sc by (simp add: weighted_average_def)
  qed
  then show "\<exists>m. updates reset (scored f metric data_loader) = Return m \<and>
             avg m = weighted_average (scored f metric data_loader)"
    and "data_loader \<noteq> [] \<Longrightarrow> 0 < total_weight (scored f metric data_loader)"
    by simp_all
qed

text \<open>
  Claim C9, as stated, is about every sequence of batches. A first batch whose text list
  is empty has weight 0: the first \<open>update\<close> divides by the count 0, and \<open>val_loop\<close>
  raises \<^verbatim>\<open>ZeroDivisionError\<close> and logs nothing.
\<close>

theorem val_loop_empty_batch_raises:
  "val_loop \<lparr>disk = Map.empty, heap = (\<lambda>a. []), next_addr = 0, logged = []\<rparr> 0 1
     \<lparr>predict = (\<lambda>images. []), get_accuracy = (\<lambda>texts text_preds. 1),
      wer = (\<lambda>texts text_preds. 0), cer = (\<lambda>texts text_preds. 0)\<rparr>
     [((), [], (), ())] = Inl ZeroDivisionError"
  by (simp add: val_loop_def update_def reset_def)

text \<open>
  Claim C9, amended. For every sequence of batches that is empty or whose first batch
  has at least one text, \<open>val_loop\<close> returns the average of the accuracy over the
  batches, weighted by the length of each batch's text list, and adds to the log one
  record with the weighted averages of the accuracy, of WER and of CER and the text of
  the time between the two readings of the clock. The three metrics have the same total
  weight, which is positive when there is a batch; with no batch the three averages are
  the 0 of a new meter.
\<close>

theorem val_loop_weighted_averages:
  assumes "first_batch_nonempty data_loader"
  shows "val_loop w strat_time end_time f data_loader =
           Inr (weighted_average (scored f (get_accuracy f) data_loader),
                w\<lparr>logged := logged w @
                   [InfoValidation
                      (weighted_average (scored f (get_accuracy f) data_loader))
                      (weighted_average (scored f (wer f) data_loader))
                      (weighted_average (scored f (cer f) data_loader))
                      (sec2min (end_time - strat_time))]\<rparr>) \<and>
         (data_loader \<noteq> [] \<longrightarrow>
            0 < total_weight (scored f (get_accuracy f) data_loader) \<and>
            total_weight (scored f (wer f) data_loader) =
              total_weight (scored f (get_accuracy f) data_loader) \<and>
            total_weight (scored f (cer f) data_loader) =
              total_weight (scored f (get_accuracy f) data_loader))"
proof -
  from updates_scored(1)[OF assms] obtain a b c where
    a: "updates reset (scored f (get_accuracy f) data_loader) = Return a"
      "avg a = weighted_average (scored f (get_accuracy f) data_loader)"
    and b: "updates reset (scored f (wer f) data_loader) = Return b"
      "avg b = weighted_average (scored f (wer f) data_loader)"
    and c: "updates reset (scored f (cer f) data_loader) = Return c"
      "avg c = weighted_average (scored f (cer f) data_loader)"
    by metis
  from val_batches_updates[OF a(1) b(1) c(1)]
  have "val_batches f (reset, reset, reset) data_loader = Inr (a, b, c)" .
  then have run: "val_loop w strat_time end_time f data_loader =
           Inr (weighted_average (scored f (get_accuracy f) data_loader),
                w\<lparr>logged := logged w @
                   [InfoValidation
                      (weighted_average (scored f (get_accuracy f) data_loader))
                      (weighted_average (scored f (wer f) data_loader))
                      (weighted_average (scored f (cer f) data_loader))
                      (sec2min (end_time - strat_time))]\<rparr>)"
    using a(2) b(2) c(2) by (simp add: val_loop_def logger_info_def Let_def)
  have tw: "total_weight (scored f m1 data_loader) = total_weight (scored f m2 data_loader)"
    for m1 m2
    by (simp add: total_weight_def scored_def comp_def case_prod_beta)
  from run updates_scored(2)[OF assms, where metric = "get_accuracy f" and f = f] tw show ?thesis
    by metis
qed

theorem val_loop_weighted_averages_witness:
  "val_loop \<lparr>disk = Map.empty, heap = (\<lambda>a. []), next_addr = 0, logged = []\<rparr> 10 200
     \<lparr>predict = (\<lambda>images. images),
      get_accuracy = (\<lambda>texts text_preds. if texts = text_preds then 1 else 1 / 2),
      wer = (\<lambda>texts text_preds. 1 / 3), cer = (\<lambda>texts text_preds. 1 / 4)\<rparr>
     [([''a'', ''x''], [''a'', ''b''], (), ()), ([''c''], [''c''], (), ())] =
   Inr (2 / 3,
        \<lparr>disk = Map.empty, heap = (\<lambda>a. []), next_addr = 0,
         logged = [InfoValidation (2 / 3) (1 / 3) (1 / 4) ''3m 10s'']\<rparr>)"
  using val_loop_weighted_averages[of
     "[([''a'', ''x''], [''a'', ''b''], (), ()), ([''c''], [''c''], (), ())]"
     "\<lparr>disk = Map.empty, heap = (\<lambda>a. []), next_addr = 0, logged = []\<rparr>" 10 200
     "\<lparr>predict = (\<lambda>images. images),
      get_accuracy = (\<lambda>texts text_preds. if texts = text_preds then 1 else 1 / 2),
      wer = (\<lambda>texts text_preds. 1 / 3), cer = (\<lambda>texts text_preds. 1 / 4)\<rparr>"]
    sec2min_190
  by (simp add: first_batch_nonempty_def scored_def weighted_average_def weighted_sum_def
        total_weight_def)

end
